theory Spec2Isabelle
  imports Main "HOL-Library.Sublist"
begin

section \<open>The TestFlight notifier bot (bot.py)\<close>

text \<open>
  A shallow embedding of \<^verbatim>\<open>bot.py\<close>: the link checker and the two-tier dispatcher of
  \<^verbatim>\<open>check_links_and_notify\<close>, and the commands \<^verbatim>\<open>notify\<close>, \<^verbatim>\<open>test-mode\<close> and
  \<^verbatim>\<open>stop\<close>. The two global sets become a record that is passed in and returned; the
  calls into the HTTP library and into the chat library become parameters whose
  results (a value or a raised exception) are data; what the bot asks of them is kept
  in a log, so that the requests and messages it issues can be talked about.
  The \<^verbatim>\<open>print\<close> calls are left out. A pass of the loop is taken on its own: a
  command that the event loop runs while a pass awaits the chat library is not
  interleaved with it.
\<close>

subsection \<open>Configuration\<close>

definition CHECK_INTERVAL :: nat where
  "CHECK_INTERVAL = 60"

text \<open>A Python dict iterates in insertion order, so the registry is a list of pairs.\<close>

definition TESTFLIGHT_LINKS :: "(string \<times> string) list" where
  "TESTFLIGHT_LINKS =
    [(''Group A'', ''https://testflight.apple.com/join/rACTLjPL''),
     (''Group B'', ''https://testflight.apple.com/join/ocj3yptn''),
     (''Group C'', ''https://testflight.apple.com/join/CuMxZE2M''),
     (''Group D'', ''https://testflight.apple.com/join/T6qKfV6f''),
     (''Group E'', ''https://testflight.apple.com/join/sMm1MCYc'')]"

definition FULL_TEXT :: string where
  "FULL_TEXT = ''This beta is full.''"

subsection \<open>Strings\<close>

text \<open>\<^verbatim>\<open>sep.join(xs)\<close> of Python. The test \<^verbatim>\<open>a in b\<close> on strings is \<^const>\<open>sublist\<close>.\<close>

fun join :: "string \<Rightarrow> string list \<Rightarrow> string" where
  "join sep [] = []"
| "join sep [x] = x"
| "join sep (x # y # ys) = x @ sep @ join sep (y # ys)"

subsection \<open>The HTTP library\<close>

text \<open>
  The keyword arguments of one \<^verbatim>\<open>requests.get\<close> call. \<open>call_timeout\<close> is \<open>None\<close>
  when the call passes no \<^verbatim>\<open>timeout\<close>.
\<close>

record get_call =
  call_url :: string
  call_headers :: "(string \<times> string) list"
  call_timeout :: "nat option"

text \<open>
  What \<^verbatim>\<open>requests.get(...)\<close> followed by \<^verbatim>\<open>response.raise_for_status()\<close> comes to:
  the text of a successful response, or a \<^verbatim>\<open>RequestException\<close> (a transport error
  raised by the first call, an \<^verbatim>\<open>HTTPError\<close> for a 4xx or 5xx status raised by the
  second), carried with its \<^verbatim>\<open>str(e)\<close>.
\<close>

datatype fetched = Body string | RequestException string

type_synonym http = "get_call \<Rightarrow> fetched"

definition request_for :: "string \<Rightarrow> get_call" where
  "request_for url =
    \<lparr>call_url = url,
     call_headers =
       [(''User-Agent'',
         ''Mozilla/5.0 (Windows NT 10.0; Win64; x64) AppleWebKit/537.36 (KHTML, like Gecko) Chrome/58.0.3029.110 Safari/537.3'')],
     call_timeout = None\<rparr>"

subsection \<open>Checking the links\<close>

text \<open>
  The two lists the first loop of \<^verbatim>\<open>check_links_and_notify\<close> fills, and the log of
  the requests it has issued.
\<close>

record report =
  requests_sent :: "get_call list"
  all_status_messages :: "string list"
  slot_available_links :: "string list"

definition no_report :: report where
  "no_report = \<lparr>requests_sent = [], all_status_messages = [], slot_available_links = []\<rparr>"

definition full_message :: "string \<Rightarrow> string" where
  "full_message name = ''**'' @ name @ ''**: Full.''"

definition slot_message :: "string \<Rightarrow> string \<Rightarrow> string" where
  "slot_message name url = ''**'' @ name @ ''**: :tada: THERE IS A SLOT! <'' @ url @ ''>''"

definition error_message :: "string \<Rightarrow> string \<Rightarrow> string" where
  "error_message name e = ''Could not check status for **'' @ name @ ''**. Error: '' @ e"

text \<open>The body of \<^verbatim>\<open>for name, url in TESTFLIGHT_LINKS.items()\<close>, with its try and except.\<close>

fun check_link :: "http \<Rightarrow> string \<times> string \<Rightarrow> report \<Rightarrow> report" where
  "check_link get (name, url) r =
    (let r = r\<lparr>requests_sent := requests_sent r @ [request_for url]\<rparr> in
     case get (request_for url) of
       Body text \<Rightarrow>
         if sublist FULL_TEXT text
         then r\<lparr>all_status_messages := all_status_messages r @ [full_message name]\<rparr>
         else r\<lparr>slot_available_links := slot_available_links r @ [slot_message name url],
                all_status_messages := all_status_messages r @ [slot_message name url]\<rparr>
     | RequestException e \<Rightarrow>
         r\<lparr>all_status_messages := all_status_messages r @ [error_message name e]\<rparr>)"

fun check_links :: "http \<Rightarrow> (string \<times> string) list \<Rightarrow> report \<Rightarrow> report" where
  "check_links get [] r = r"
| "check_links get (link # links) r = check_links get links (check_link get link r)"

text \<open>
  The three ways through the loop body, under the names the specification gives them,
  and the line each of them appends.
\<close>

datatype state = FULL | AVAILABLE | UNREACHABLE

fun link_state :: "http \<Rightarrow> string \<times> string \<Rightarrow> state" where
  "link_state get (name, url) =
    (case get (request_for url) of
       Body text \<Rightarrow> if sublist FULL_TEXT text then FULL else AVAILABLE
     | RequestException e \<Rightarrow> UNREACHABLE)"

fun link_detail :: "http \<Rightarrow> string \<times> string \<Rightarrow> string" where
  "link_detail get (name, url) =
    (case get (request_for url) of
       Body text \<Rightarrow> if sublist FULL_TEXT text then full_message name else slot_message name url
     | RequestException e \<Rightarrow> error_message name e)"

definition is_available :: "http \<Rightarrow> string \<times> string \<Rightarrow> bool" where
  "is_available get link = (link_state get link = AVAILABLE)"

subsection \<open>The subscribers\<close>

record store =
  subscribed_users :: "int set"
  test_mode_users :: "int set"

text \<open>\<^verbatim>\<open>subscribed_users.discard(user_id); test_mode_users.discard(user_id)\<close>\<close>

definition discard_user :: "int \<Rightarrow> store \<Rightarrow> store" where
  "discard_user user_id st =
    st\<lparr>subscribed_users := subscribed_users st - {user_id},
       test_mode_users := test_mode_users st - {user_id}\<rparr>"

definition verbose_subset :: "store \<Rightarrow> bool" where
  "verbose_subset st = (test_mode_users st \<subseteq> subscribed_users st)"

subsection \<open>The chat library\<close>

text \<open>
  \<^verbatim>\<open>bot.fetch_user(user_id)\<close> returns a user, returns something falsy, raises
  \<^verbatim>\<open>discord.errors.Forbidden\<close> or raises another \<^verbatim>\<open>Exception\<close>;
  \<^verbatim>\<open>user.send(text)\<close> returns, raises \<^verbatim>\<open>Forbidden\<close> or raises another
  \<^verbatim>\<open>Exception\<close>.
\<close>

datatype lookup = User_Found | User_None | Lookup_Forbidden | Lookup_Error

datatype delivery = Delivered | Forbidden | Send_Error

record discord =
  fetch_user :: "int \<Rightarrow> lookup"
  send :: "int \<Rightarrow> string \<Rightarrow> delivery"

text \<open>One entry for each call of \<^verbatim>\<open>user.send\<close>: the recipient, the text, how it ended.\<close>

type_synonym send_log = "(int \<times> string \<times> delivery) list"

definition full_update :: "string list \<Rightarrow> string" where
  "full_update lines = ''--- Test Mode Status Update ---\<newline>'' @ join ''\<newline>'' lines"

definition slot_notification :: "string list \<Rightarrow> string" where
  "slot_notification lines = ''--- :tada: Slot Available! ---\<newline>'' @ join ''\<newline>'' lines"

text \<open>\<^verbatim>\<open>await user.send(text)\<close> inside the try of the second loop.\<close>

definition user_send :: "discord \<Rightarrow> int \<Rightarrow> string \<Rightarrow> store \<times> send_log \<Rightarrow> store \<times> send_log" where
  "user_send d user_id text = (\<lambda>(st, log).
    case send d user_id text of
      Delivered \<Rightarrow> (st, log @ [(user_id, text, Delivered)])
    | Forbidden \<Rightarrow> (discard_user user_id st, log @ [(user_id, text, Forbidden)])
    | Send_Error \<Rightarrow> (st, log @ [(user_id, text, Send_Error)]))"

text \<open>The body of \<^verbatim>\<open>for user_id in list(subscribed_users)\<close>.\<close>

definition notify_user ::
  "discord \<Rightarrow> string \<Rightarrow> bool \<Rightarrow> string list \<Rightarrow> int \<Rightarrow> store \<times> send_log \<Rightarrow> store \<times> send_log" where
  "notify_user d full_update_message slot_found slot_links user_id = (\<lambda>(st, log).
    case fetch_user d user_id of
      Lookup_Forbidden \<Rightarrow> (discard_user user_id st, log)
    | Lookup_Error \<Rightarrow> (st, log)
    | User_None \<Rightarrow> (st, log)
    | User_Found \<Rightarrow>
        if user_id \<in> test_mode_users st
        then user_send d user_id full_update_message (st, log)
        else if slot_found
        then user_send d user_id (slot_notification slot_links) (st, log)
        else (st, log))"

fun notify_users ::
  "discord \<Rightarrow> string \<Rightarrow> bool \<Rightarrow> string list \<Rightarrow> int list \<Rightarrow> store \<times> send_log \<Rightarrow> store \<times> send_log" where
  "notify_users d full_update_message slot_found slot_links [] s = s"
| "notify_users d full_update_message slot_found slot_links (user_id # ids) s =
     notify_users d full_update_message slot_found slot_links ids
       (notify_user d full_update_message slot_found slot_links user_id s)"

text \<open>
  One pass of \<^verbatim>\<open>while not bot.is_closed()\<close>, up to the sleep. \<open>links\<close> is the registry
  (\<^const>\<open>TESTFLIGHT_LINKS\<close> in the source) and \<open>snapshot\<close> is \<^verbatim>\<open>list(subscribed_users)\<close>:
  Python fixes no order for it, so it is given, and \<open>is_snapshot\<close> says what it is.
\<close>

definition is_snapshot :: "int list \<Rightarrow> store \<Rightarrow> bool" where
  "is_snapshot snapshot st = (distinct snapshot \<and> set snapshot = subscribed_users st)"

definition check_links_and_notify ::
  "(string \<times> string) list \<Rightarrow> http \<Rightarrow> discord \<Rightarrow> int list \<Rightarrow> store \<Rightarrow> store \<times> send_log" where
  "check_links_and_notify links get d snapshot st =
    (if subscribed_users st \<noteq> {} then
       let r = check_links get links no_report;
           full_update_message = full_update (all_status_messages r);
           slot_found = (length (slot_available_links r) > 0)
       in notify_users d full_update_message slot_found (slot_available_links r) snapshot (st, [])
     else (st, []))"

text \<open>What was passed to \<^verbatim>\<open>user.send\<close> for one user, and what of it arrived.\<close>

definition sent_to :: "int \<Rightarrow> send_log \<Rightarrow> string list" where
  "sent_to user_id log = map (fst \<circ> snd) (filter (\<lambda>e. fst e = user_id) log)"

definition received_by :: "int \<Rightarrow> send_log \<Rightarrow> string list" where
  "received_by user_id log =
     map (fst \<circ> snd) (filter (\<lambda>e. fst e = user_id \<and> snd (snd e) = Delivered) log)"

subsection \<open>The commands\<close>

text \<open>
  \<open>channel\<close> is the outcome of \<^verbatim>\<open>isinstance(ctx.channel, discord.DMChannel)\<close>. A command
  returns the store and the texts it passed to \<^verbatim>\<open>ctx.send\<close>; every change of the sets
  comes before the send in the source, so it does not depend on how the send ends.
\<close>

datatype channel = DMChannel | Other_Channel

record ctx =
  channel :: channel
  author_id :: int

definition notify :: "ctx \<Rightarrow> store \<Rightarrow> store \<times> string list" where
  "notify c st =
    (if channel c \<noteq> DMChannel
     then (st, [''This command only works in my DMs! Please message me directly.''])
     else if author_id c \<in> subscribed_users st
     then (st, [''You are already subscribed!''])
     else (st\<lparr>subscribed_users := insert (author_id c) (subscribed_users st)\<rparr>,
           [''You have successfully subscribed! **By default, I will only message you when a slot opens.**\<newline>\<newline>'' @
            ''To get a status message every minute (even if full), type `testflight>test-mode`.\<newline>'' @
            ''To unsubscribe, type `testflight>stop`.'']))"

definition test_mode :: "ctx \<Rightarrow> store \<Rightarrow> store \<times> string list" where
  "test_mode c st =
    (if channel c \<noteq> DMChannel then (st, [])
     else if author_id c \<notin> subscribed_users st
     then (st, [''You need to subscribe first! Type `testflight>notify` to begin.''])
     else if author_id c \<in> test_mode_users st
     then (st\<lparr>test_mode_users := test_mode_users st - {author_id c}\<rparr>,
           [''Test mode **disabled**. You will now only receive notifications when a slot is available.''])
     else (st\<lparr>test_mode_users := insert (author_id c) (test_mode_users st)\<rparr>,
           [''Test mode **enabled**. You will now receive a status update every minute.'']))"

definition stop :: "ctx \<Rightarrow> store \<Rightarrow> store \<times> string list" where
  "stop c st =
    (if channel c \<noteq> DMChannel then (st, [])
     else if author_id c \<in> subscribed_users st
     then (discard_user (author_id c) st,
           [''You have been unsubscribed. You will no longer receive updates.''])
     else (st, [''You are not currently subscribed.'']))"

subsection \<open>What the second loop does for one user\<close>

text \<open>
  The entries one pass through the body of the second loop adds to the log for
  \<open>user_id\<close>, and whether that pass ends in the \<^verbatim>\<open>except discord.errors.Forbidden\<close>
  branch, as functions of the set of test mode users at that moment. They are used to
  describe the whole loop.
\<close>

definition due :: "discord \<Rightarrow> string \<Rightarrow> bool \<Rightarrow> string list \<Rightarrow> int set \<Rightarrow> int \<Rightarrow> send_log" where
  "due d full_update_message slot_found slot_links verbose user_id =
    (if fetch_user d user_id \<noteq> User_Found then []
     else if user_id \<in> verbose
     then [(user_id, full_update_message, send d user_id full_update_message)]
     else if slot_found
     then [(user_id, slot_notification slot_links, send d user_id (slot_notification slot_links))]
     else [])"

definition refused :: "discord \<Rightarrow> string \<Rightarrow> bool \<Rightarrow> string list \<Rightarrow> int set \<Rightarrow> int \<Rightarrow> bool" where
  "refused d full_update_message slot_found slot_links verbose user_id =
    (fetch_user d user_id = Lookup_Forbidden \<or>
     (\<exists>e \<in> set (due d full_update_message slot_found slot_links verbose user_id).
        snd (snd e) = Forbidden))"

subsection \<open>Sample surroundings\<close>

text \<open>Every page reports a full beta; every request fails; one of each.\<close>

definition beta_full :: http where
  "beta_full c = Body ''<html><body>This beta is full.</body></html>''"

definition timed_out :: http where
  "timed_out c = RequestException ''Read timed out.''"

definition sample_http :: http where
  "sample_http c =
    (if call_url c = ''https://testflight.apple.com/join/rACTLjPL''
     then Body ''<html><body>This beta is full.</body></html>''
     else if call_url c = ''https://testflight.apple.com/join/CuMxZE2M''
     then RequestException ''404 Client Error: Not Found''
     else Body ''<html><body>Start Testing</body></html>'')"

text \<open>Users 1, 2 and 3 are subscribed, user 1 in test mode; user 3 refuses direct messages.\<close>

definition sample_store :: store where
  "sample_store = \<lparr>subscribed_users = {1, 2, 3}, test_mode_users = {1}\<rparr>"

definition sample_discord :: discord where
  "sample_discord =
    \<lparr>fetch_user = (\<lambda>user_id. User_Found),
     send = (\<lambda>user_id text. if user_id = 3 then Forbidden else Delivered)\<rparr>"

definition dm :: "int \<Rightarrow> ctx" where
  "dm user_id = \<lparr>channel = DMChannel, author_id = user_id\<rparr>"

definition in_guild :: "int \<Rightarrow> ctx" where
  "in_guild user_id = \<lparr>channel = Other_Channel, author_id = user_id\<rparr>"

section \<open>Properties\<close>

subsection \<open>The first loop\<close>

lemma check_link_requests:
  "requests_sent (check_link get link r) = requests_sent r @ [request_for (snd link)]"
  by (cases link) (simp add: Let_def split: fetched.splits)

lemma check_link_all:
  "all_status_messages (check_link get link r) = all_status_messages r @ [link_detail get link]"
  by (cases link) (simp add: Let_def split: fetched.splits)

lemma check_link_slots:
  "slot_available_links (check_link get link r) =
     slot_available_links r @ (if is_available get link then [link_detail get link] else [])"
  by (cases link) (simp add: Let_def is_available_def split: fetched.splits)

lemma check_links_requests:
  "requests_sent (check_links get links r) = requests_sent r @ map (request_for \<circ> snd) links"
  by (induction links arbitrary: r) (simp_all add: check_link_requests)

lemma check_links_all:
  "all_status_messages (check_links get links r) =
     all_status_messages r @ map (link_detail get) links"
  by (induction links arbitrary: r) (simp_all add: check_link_all)

lemma check_links_slots:
  "slot_available_links (check_links get links r) =
     slot_available_links r @ map (link_detail get) (filter (is_available get) links)"
  by (induction links arbitrary: r) (simp_all add: check_link_slots)

subsection \<open>The second loop\<close>

lemma notify_user_eq:
  "notify_user d fm sf sl u (st, log) =
     (if refused d fm sf sl (test_mode_users st) u then discard_user u st else st,
      log @ due d fm sf sl (test_mode_users st) u)"
  by (cases "fetch_user d u"; cases "send d u fm"; cases "send d u (slot_notification sl)")
     (simp_all add: notify_user_def user_send_def due_def refused_def)

lemma due_discard:
  "u \<noteq> v \<Longrightarrow> due d fm sf sl (test_mode_users (discard_user v st)) u = due d fm sf sl (test_mode_users st) u"
  by (simp add: due_def discard_user_def)

lemma refused_discard:
  "u \<noteq> v \<Longrightarrow> refused d fm sf sl (test_mode_users (discard_user v st)) u = refused d fm sf sl (test_mode_users st) u"
  by (simp add: refused_def due_discard)

lemma notify_users_log:
  "distinct ids \<Longrightarrow>
   snd (notify_users d fm sf sl ids (st, log)) =
     log @ concat (map (due d fm sf sl (test_mode_users st)) ids)"
proof (induction ids arbitrary: st log)
  case Nil
  then show ?case by simp
next
  case (Cons v ids)
  have same: "map (due d fm sf sl (test_mode_users (discard_user v st))) ids =
              map (due d fm sf sl (test_mode_users st)) ids"
  proof (rule map_cong [OF refl])
    fix u assume "u \<in> set ids"
    with Cons.prems have "u \<noteq> v" by auto
    then show "due d fm sf sl (test_mode_users (discard_user v st)) u =
               due d fm sf sl (test_mode_users st) u"
      by (rule due_discard)
  qed
  from Cons.prems have "distinct ids" by simp
  note IH = Cons.IH [OF this]
  show ?case
  proof (cases "refused d fm sf sl (test_mode_users st) v")
    case True
    then show ?thesis by (simp add: notify_user_eq IH same del: map_eq_conv)
  next
    case False
    then show ?thesis by (simp add: notify_user_eq IH)
  qed
qed

lemma notify_users_store:
  "distinct ids \<Longrightarrow>
   subscribed_users (fst (notify_users d fm sf sl ids (st, log))) =
     subscribed_users st - {u \<in> set ids. refused d fm sf sl (test_mode_users st) u} \<and>
   test_mode_users (fst (notify_users d fm sf sl ids (st, log))) =
     test_mode_users st - {u \<in> set ids. refused d fm sf sl (test_mode_users st) u}"
proof (induction ids arbitrary: st log)
  case Nil
  then show ?case by simp
next
  case (Cons v ids)
  have same: "\<And>u. u \<in> set ids \<Longrightarrow>
      refused d fm sf sl (test_mode_users (discard_user v st)) u =
      refused d fm sf sl (test_mode_users st) u"
  proof -
    fix u assume "u \<in> set ids"
    with Cons.prems have "u \<noteq> v" by auto
    then show "refused d fm sf sl (test_mode_users (discard_user v st)) u =
               refused d fm sf sl (test_mode_users st) u"
      by (rule refused_discard)
  qed
  have sets: "{u \<in> set ids. refused d fm sf sl (test_mode_users (discard_user v st)) u} =
              {u \<in> set ids. refused d fm sf sl (test_mode_users st) u}"
    using same by blast
  show ?case
  proof (cases "refused d fm sf sl (test_mode_users st) v")
    case True
    then show ?thesis
      using Cons.prems Cons.IH [of "discard_user v st" "log @ due d fm sf sl (test_mode_users st) v"] sets
      by (auto simp: notify_user_eq discard_user_def)
  next
    case False
    then show ?thesis
      using Cons.prems Cons.IH [of st "log @ due d fm sf sl (test_mode_users st) v"]
      by (auto simp: notify_user_eq)
  qed
qed

lemma sent_to_append: "sent_to u (xs @ ys) = sent_to u xs @ sent_to u ys"
  by (simp add: sent_to_def)

lemma received_by_append: "received_by u (xs @ ys) = received_by u xs @ received_by u ys"
  by (simp add: received_by_def)

lemma sent_to_Nil: "sent_to u [] = []"
  by (simp add: sent_to_def)

lemma received_by_Nil: "received_by u [] = []"
  by (simp add: received_by_def)

lemma sent_to_due_other: "u \<noteq> v \<Longrightarrow> sent_to u (due d fm sf sl T v) = []"
  by (simp add: sent_to_def due_def)

lemma received_by_due_other: "u \<noteq> v \<Longrightarrow> received_by u (due d fm sf sl T v) = []"
  by (simp add: received_by_def due_def)

lemma sent_to_dues:
  "distinct ids \<Longrightarrow>
   sent_to u (concat (map (due d fm sf sl T) ids)) =
     (if u \<in> set ids then sent_to u (due d fm sf sl T u) else [])"
proof (induction ids)
  case Nil
  show ?case by (simp add: sent_to_Nil)
next
  case (Cons v ids)
  show ?case
  proof (cases "u = v")
    case True
    with Cons show ?thesis by (simp add: sent_to_append)
  next
    case False
    with Cons show ?thesis by (simp add: sent_to_append sent_to_due_other)
  qed
qed

lemma received_by_dues:
  "distinct ids \<Longrightarrow>
   received_by u (concat (map (due d fm sf sl T) ids)) =
     (if u \<in> set ids then received_by u (due d fm sf sl T u) else [])"
proof (induction ids)
  case Nil
  show ?case by (simp add: received_by_Nil)
next
  case (Cons v ids)
  show ?case
  proof (cases "u = v")
    case True
    with Cons show ?thesis by (simp add: received_by_append)
  next
    case False
    with Cons show ?thesis by (simp add: received_by_append received_by_due_other)
  qed
qed

lemma slot_neq_full: "slot_message n u \<noteq> full_message n'"
proof
  assume "slot_message n u = full_message n'"
  then have "last (slot_message n u) = last (full_message n')" by simp
  then show False by (simp add: slot_message_def full_message_def)
qed

lemma slot_neq_error: "slot_message n u \<noteq> error_message n' e"
proof
  assume "slot_message n u = error_message n' e"
  then have "hd (slot_message n u) = hd (error_message n' e)" by simp
  then show False by (simp add: slot_message_def error_message_def)
qed

lemma available_detail:
  "is_available get link \<Longrightarrow> link_detail get link = slot_message (fst link) (snd link)"
  by (cases link) (simp add: is_available_def split: fetched.splits if_splits)

lemma other_detail:
  "\<not> is_available get link \<Longrightarrow>
   link_detail get link = full_message (fst link) \<or>
   (\<exists>e. link_detail get link = error_message (fst link) e)"
  by (cases link) (auto simp: is_available_def split: fetched.splits if_splits)

lemma slots_are_slot_messages:
  "m \<in> set (map (link_detail get) (filter (is_available get) links)) \<Longrightarrow>
   \<exists>n u. m = slot_message n u"
  by (auto simp: available_detail)

lemma full_not_in_slots:
  "full_message n \<notin> set (map (link_detail get) (filter (is_available get) links))"
  using slots_are_slot_messages [of "full_message n" get links] slot_neq_full by metis

lemma error_not_in_slots:
  "error_message n e \<notin> set (map (link_detail get) (filter (is_available get) links))"
  using slots_are_slot_messages [of "error_message n e" get links] slot_neq_error by metis

lemma other_not_in_slots:
  "\<not> is_available get link \<Longrightarrow>
   link_detail get link \<notin> set (map (link_detail get) (filter (is_available get) links))"
  using other_detail [of get link] full_not_in_slots error_not_in_slots by metis

lemma report_all:
  "all_status_messages (check_links get links no_report) = map (link_detail get) links"
  by (simp add: check_links_all no_report_def)

lemma report_slots:
  "slot_available_links (check_links get links no_report) =
     map (link_detail get) (filter (is_available get) links)"
  by (simp add: check_links_slots no_report_def)

lemma report_requests:
  "requests_sent (check_links get links no_report) = map (request_for \<circ> snd) links"
  by (simp add: check_links_requests no_report_def)

lemma check_links_append:
  "check_links get (xs @ ys) r = check_links get ys (check_links get xs r)"
  by (induction xs arbitrary: r) simp_all

lemma check_links_split:
  assumes "i < length links"
  shows "check_links get links r =
     check_links get (drop (Suc i) links) (check_link get (links ! i) (check_links get (take i links) r))"
proof -
  have "links = take i links @ links ! i # drop (Suc i) links"
    using assms by (rule id_take_nth_drop)
  then have "check_links get links r =
      check_links get (take i links @ links ! i # drop (Suc i) links) r"
    by simp
  then show ?thesis
    by (simp only: check_links_append check_links.simps)
qed

lemma report_slots_states:
  "slot_available_links (check_links get links no_report) =
     map (link_detail get) (filter (\<lambda>link. link_state get link = AVAILABLE) links)"
  using report_slots [of get links] by (simp add: is_available_def [abs_def])

subsection \<open>One pass of the loop\<close>

lemma slot_found_iff:
  "(slot_available_links (check_links get links no_report) \<noteq> []) =
     (\<exists>link \<in> set links. is_available get link)"
  by (simp add: report_slots filter_empty_conv)

lemma cycle_eq:
  "subscribed_users st \<noteq> {} \<Longrightarrow>
   check_links_and_notify links get d snapshot st =
     notify_users d (full_update (all_status_messages (check_links get links no_report)))
       (slot_available_links (check_links get links no_report) \<noteq> [])
       (slot_available_links (check_links get links no_report)) snapshot (st, [])"
  by (simp add: check_links_and_notify_def Let_def)

lemma cycle_log:
  assumes "is_snapshot snapshot st" and "subscribed_users st \<noteq> {}"
  shows "snd (check_links_and_notify links get d snapshot st) =
     concat (map (due d (full_update (all_status_messages (check_links get links no_report)))
       (slot_available_links (check_links get links no_report) \<noteq> [])
       (slot_available_links (check_links get links no_report)) (test_mode_users st)) snapshot)"
  using assms by (simp add: cycle_eq notify_users_log is_snapshot_def)

lemma cycle_sent_to:
  assumes "is_snapshot snapshot st" and "u \<in> subscribed_users st"
  shows "sent_to u (snd (check_links_and_notify links get d snapshot st)) =
     sent_to u (due d (full_update (all_status_messages (check_links get links no_report)))
       (slot_available_links (check_links get links no_report) \<noteq> [])
       (slot_available_links (check_links get links no_report)) (test_mode_users st) u)"
proof -
  from assms have ne: "subscribed_users st \<noteq> {}" and d: "distinct snapshot" and m: "u \<in> set snapshot"
    by (auto simp: is_snapshot_def)
  show ?thesis
    by (simp only: cycle_log [OF assms(1) ne] sent_to_dues [OF d] m if_True)
qed

lemma cycle_received_by:
  assumes "is_snapshot snapshot st" and "u \<in> subscribed_users st"
  shows "received_by u (snd (check_links_and_notify links get d snapshot st)) =
     received_by u (due d (full_update (all_status_messages (check_links get links no_report)))
       (slot_available_links (check_links get links no_report) \<noteq> [])
       (slot_available_links (check_links get links no_report)) (test_mode_users st) u)"
proof -
  from assms have ne: "subscribed_users st \<noteq> {}" and d: "distinct snapshot" and m: "u \<in> set snapshot"
    by (auto simp: is_snapshot_def)
  show ?thesis
    by (simp only: cycle_log [OF assms(1) ne] received_by_dues [OF d] m if_True)
qed

lemma cycle_store:
  assumes "is_snapshot snapshot st" and "subscribed_users st \<noteq> {}"
  shows "subscribed_users (fst (check_links_and_notify links get d snapshot st)) =
     subscribed_users st - {u \<in> set snapshot.
       refused d (full_update (all_status_messages (check_links get links no_report)))
         (slot_available_links (check_links get links no_report) \<noteq> [])
         (slot_available_links (check_links get links no_report)) (test_mode_users st) u}"
    and "test_mode_users (fst (check_links_and_notify links get d snapshot st)) =
     test_mode_users st - {u \<in> set snapshot.
       refused d (full_update (all_status_messages (check_links get links no_report)))
         (slot_available_links (check_links get links no_report) \<noteq> [])
         (slot_available_links (check_links get links no_report)) (test_mode_users st) u}"
  using assms notify_users_store [of snapshot d _ _ _ st "[]"]
  by (simp_all add: cycle_eq is_snapshot_def)

lemma due_entry: "e \<in> set (due d fm sf sl T v) \<Longrightarrow> fst e = v"
  by (auto simp: due_def split: if_splits)

lemma discard_user_subset: "verbose_subset st \<Longrightarrow> verbose_subset (discard_user u st)"
  by (auto simp: verbose_subset_def discard_user_def)

lemma notify_user_subset:
  "verbose_subset (fst s) \<Longrightarrow> verbose_subset (fst (notify_user d fm sf sl u s))"
  by (cases s) (simp add: notify_user_eq discard_user_subset)

lemma notify_users_subset:
  "verbose_subset (fst s) \<Longrightarrow> verbose_subset (fst (notify_users d fm sf sl ids s))"
  by (induction ids arbitrary: s) (simp_all add: notify_user_subset)

subsection \<open>The sample pass\<close>

lemma sample_lines:
  "all_status_messages (check_links sample_http TESTFLIGHT_LINKS no_report) =
     [''**Group A**: Full.'',
      ''**Group B**: :tada: THERE IS A SLOT! <https://testflight.apple.com/join/ocj3yptn>'',
      ''Could not check status for **Group C**. Error: 404 Client Error: Not Found'',
      ''**Group D**: :tada: THERE IS A SLOT! <https://testflight.apple.com/join/T6qKfV6f>'',
      ''**Group E**: :tada: THERE IS A SLOT! <https://testflight.apple.com/join/sMm1MCYc>'']"
  by (simp add: TESTFLIGHT_LINKS_def sample_http_def request_for_def FULL_TEXT_def sublist_code
      full_message_def slot_message_def error_message_def no_report_def)

lemma sample_slots:
  "slot_available_links (check_links sample_http TESTFLIGHT_LINKS no_report) =
     [''**Group B**: :tada: THERE IS A SLOT! <https://testflight.apple.com/join/ocj3yptn>'',
      ''**Group D**: :tada: THERE IS A SLOT! <https://testflight.apple.com/join/T6qKfV6f>'',
      ''**Group E**: :tada: THERE IS A SLOT! <https://testflight.apple.com/join/sMm1MCYc>'']"
  by (simp add: TESTFLIGHT_LINKS_def sample_http_def request_for_def FULL_TEXT_def sublist_code
      full_message_def slot_message_def error_message_def no_report_def)

lemma beta_full_slots:
  "slot_available_links (check_links beta_full TESTFLIGHT_LINKS no_report) = []"
  by (simp add: TESTFLIGHT_LINKS_def beta_full_def FULL_TEXT_def sublist_code no_report_def)

lemma beta_full_states:
  "\<forall>link \<in> set TESTFLIGHT_LINKS. link_state beta_full link \<noteq> AVAILABLE"
  by (simp add: TESTFLIGHT_LINKS_def beta_full_def FULL_TEXT_def sublist_code)

lemma sample_states:
  "\<exists>link \<in> set TESTFLIGHT_LINKS. link_state sample_http link = AVAILABLE"
  by (simp add: TESTFLIGHT_LINKS_def sample_http_def request_for_def FULL_TEXT_def sublist_code)

lemma sample_cycle_store:
  "fst (check_links_and_notify TESTFLIGHT_LINKS sample_http sample_discord [3, 1, 2] sample_store) =
     \<lparr>subscribed_users = {1, 2}, test_mode_users = {1}\<rparr>"
  by (auto simp: check_links_and_notify_def Let_def sample_slots sample_lines sample_store_def
        sample_discord_def notify_user_def user_send_def discard_user_def)

section \<open>The claims\<close>

subsection \<open>C1: the marker decides between FULL and AVAILABLE\<close>

text \<open>
  C1, as stated, gives the detail of a full target as the name followed by
  \<^verbatim>\<open>: Full.\<close>. The source writes the name between \<^verbatim>\<open>**\<close> markers: with a body that
  holds the marker, the line for Group A is \<^verbatim>\<open>**Group A**: Full.\<close> and not
  \<^verbatim>\<open>Group A: Full.\<close>.
\<close>

theorem full_line_counterexample:
  "TESTFLIGHT_LINKS ! 0 = (''Group A'', ''https://testflight.apple.com/join/rACTLjPL'') \<and>
   beta_full (request_for ''https://testflight.apple.com/join/rACTLjPL'') =
     Body ''<html><body>This beta is full.</body></html>'' \<and>
   sublist FULL_TEXT ''<html><body>This beta is full.</body></html>'' \<and>
   all_status_messages (check_links beta_full TESTFLIGHT_LINKS no_report) ! 0 = ''**Group A**: Full.'' \<and>
   all_status_messages (check_links beta_full TESTFLIGHT_LINKS no_report) ! 0 \<noteq> ''Group A: Full.''"
  by (simp add: TESTFLIGHT_LINKS_def beta_full_def FULL_TEXT_def no_report_def full_message_def
      sublist_code)

text \<open>
  C1, amended: for every target of the registry whose fetch succeeds, if
  \<^const>\<open>FULL_TEXT\<close> occurs in the fetched body, the loop body appends to
  \<open>all_status_messages\<close> the name between \<^verbatim>\<open>**\<close> markers followed by \<^verbatim>\<open>: Full.\<close>
  and leaves \<open>slot_available_links\<close> as it was (the target is FULL); if the marker is
  absent, it appends to both lists the name between \<^verbatim>\<open>**\<close> markers, the slot marker
  \<^verbatim>\<open>:tada: THERE IS A SLOT!\<close> and the URL between angle brackets (the target is
  AVAILABLE). In the report of the whole pass the target's line stands at the target's
  place, and \<open>slot_available_links\<close> holds the lines of the AVAILABLE targets, in
  registry order, and nothing else.
\<close>

theorem marker_decides_line:
  assumes "i < length links" and "links ! i = (name, url)"
    and "get (request_for url) = Body text"
  shows "(sublist FULL_TEXT text \<longrightarrow>
            check_link get (name, url) r =
              r\<lparr>requests_sent := requests_sent r @ [request_for url],
                all_status_messages := all_status_messages r @ [''**'' @ name @ ''**: Full.'']\<rparr> \<and>
            link_state get (links ! i) = FULL \<and>
            all_status_messages (check_links get links no_report) ! i = ''**'' @ name @ ''**: Full.'' \<and>
            ''**'' @ name @ ''**: Full.'' \<notin> set (slot_available_links (check_links get links no_report))) \<and>
         (\<not> sublist FULL_TEXT text \<longrightarrow>
            check_link get (name, url) r =
              r\<lparr>requests_sent := requests_sent r @ [request_for url],
                slot_available_links := slot_available_links r @
                  [''**'' @ name @ ''**: :tada: THERE IS A SLOT! <'' @ url @ ''>''],
                all_status_messages := all_status_messages r @
                  [''**'' @ name @ ''**: :tada: THERE IS A SLOT! <'' @ url @ ''>'']\<rparr> \<and>
            link_state get (links ! i) = AVAILABLE \<and>
            all_status_messages (check_links get links no_report) ! i =
              ''**'' @ name @ ''**: :tada: THERE IS A SLOT! <'' @ url @ ''>'' \<and>
            all_status_messages (check_links get links no_report) ! i
              \<in> set (slot_available_links (check_links get links no_report)) \<and>
            sublist '':tada: THERE IS A SLOT!'' (all_status_messages (check_links get links no_report) ! i) \<and>
            sublist url (all_status_messages (check_links get links no_report) ! i)) \<and>
         slot_available_links (check_links get links no_report) =
           map (link_detail get) (filter (\<lambda>link. link_state get link = AVAILABLE) links) \<and>
         check_links get links no_report =
           check_links get (drop (Suc i) links)
             (check_link get (name, url) (check_links get (take i links) no_report))"
proof -
  let ?r = "check_links get links no_report"
  have line: "all_status_messages ?r ! i = link_detail get (name, url)"
    using assms(1,2) by (simp add: report_all)
  have mem: "(name, url) \<in> set links"
    using assms(1,2) by (metis nth_mem)
  have split: "?r = check_links get (drop (Suc i) links)
      (check_link get (name, url) (check_links get (take i links) no_report))"
    using check_links_split [OF assms(1), of get no_report] assms(2) by simp
  note whole = report_slots_states [of get links]
  show ?thesis
  proof (cases "sublist FULL_TEXT text")
    case True
    have step: "check_link get (name, url) r =
        r\<lparr>requests_sent := requests_sent r @ [request_for url],
          all_status_messages := all_status_messages r @ [''**'' @ name @ ''**: Full.'']\<rparr>"
      using assms(3) True by (simp add: full_message_def)
    have out: "full_message name \<notin> set (slot_available_links ?r)"
      by (simp only: report_slots full_not_in_slots not_False_eq_True)
    have st: "link_state get (links ! i) = FULL"
      using assms(2,3) True by simp
    have l: "all_status_messages ?r ! i = ''**'' @ name @ ''**: Full.''"
      using line assms(3) True by (simp add: full_message_def)
    from True step out st l whole split show ?thesis
      unfolding full_message_def by blast
  next
    case False
    with assms(3) have av: "is_available get (name, url)"
      by (simp add: is_available_def)
    have det: "link_detail get (name, url) = slot_message name url"
      using assms(3) False by simp
    have step: "check_link get (name, url) r =
        r\<lparr>requests_sent := requests_sent r @ [request_for url],
          slot_available_links := slot_available_links r @ [slot_message name url],
          all_status_messages := all_status_messages r @ [slot_message name url]\<rparr>"
      using assms(3) False by simp
    have st: "link_state get (links ! i) = AVAILABLE"
      using assms(2,3) False by simp
    have l: "all_status_messages ?r ! i = slot_message name url"
      using line det by simp
    have "link_detail get (name, url) \<in> set (slot_available_links ?r)"
      using av mem by (simp add: report_slots del: link_detail.simps)
    then have inn: "all_status_messages ?r ! i \<in> set (slot_available_links ?r)"
      using line by simp
    have s1: "sublist '':tada: THERE IS A SLOT!'' (slot_message name url)"
      unfolding slot_message_def
      using sublist_appendI [of "'':tada: THERE IS A SLOT!''" "''**'' @ name @ ''**: ''" "'' <'' @ url @ ''>''"]
      by simp
    have s2: "sublist url (slot_message name url)"
      unfolding slot_message_def
      using sublist_appendI [of url "''**'' @ name @ ''**: :tada: THERE IS A SLOT! <''" "''>''"]
      by simp
    from s1 s2 l have s1': "sublist '':tada: THERE IS A SLOT!'' (all_status_messages ?r ! i)"
      and s2': "sublist url (all_status_messages ?r ! i)" by simp_all
    from False step st l inn s1' s2' whole split show ?thesis
      unfolding slot_message_def by blast
  qed
qed

theorem marker_decides_line_witness:
  "0 < length TESTFLIGHT_LINKS \<and>
   TESTFLIGHT_LINKS ! 0 = (''Group A'', ''https://testflight.apple.com/join/rACTLjPL'') \<and>
   sample_http (request_for ''https://testflight.apple.com/join/rACTLjPL'') =
     Body ''<html><body>This beta is full.</body></html>'' \<and>
   sublist FULL_TEXT ''<html><body>This beta is full.</body></html>'' \<and>
   check_link sample_http (''Group A'', ''https://testflight.apple.com/join/rACTLjPL'') no_report =
     \<lparr>requests_sent = [request_for ''https://testflight.apple.com/join/rACTLjPL''],
      all_status_messages = [''**Group A**: Full.''],
      slot_available_links = []\<rparr> \<and>
   link_state sample_http (TESTFLIGHT_LINKS ! 0) = FULL \<and>
   all_status_messages (check_links sample_http TESTFLIGHT_LINKS no_report) ! 0 = ''**Group A**: Full.'' \<and>
   1 < length TESTFLIGHT_LINKS \<and>
   TESTFLIGHT_LINKS ! 1 = (''Group B'', ''https://testflight.apple.com/join/ocj3yptn'') \<and>
   sample_http (request_for ''https://testflight.apple.com/join/ocj3yptn'') =
     Body ''<html><body>Start Testing</body></html>'' \<and>
   \<not> sublist FULL_TEXT ''<html><body>Start Testing</body></html>'' \<and>
   check_link sample_http (''Group B'', ''https://testflight.apple.com/join/ocj3yptn'') no_report =
     \<lparr>requests_sent = [request_for ''https://testflight.apple.com/join/ocj3yptn''],
      all_status_messages =
        [''**Group B**: :tada: THERE IS A SLOT! <https://testflight.apple.com/join/ocj3yptn>''],
      slot_available_links =
        [''**Group B**: :tada: THERE IS A SLOT! <https://testflight.apple.com/join/ocj3yptn>'']\<rparr> \<and>
   link_state sample_http (TESTFLIGHT_LINKS ! 1) = AVAILABLE \<and>
   all_status_messages (check_links sample_http TESTFLIGHT_LINKS no_report) ! 1 =
     ''**Group B**: :tada: THERE IS A SLOT! <https://testflight.apple.com/join/ocj3yptn>'' \<and>
   slot_available_links (check_links sample_http TESTFLIGHT_LINKS no_report) =
     [''**Group B**: :tada: THERE IS A SLOT! <https://testflight.apple.com/join/ocj3yptn>'',
      ''**Group D**: :tada: THERE IS A SLOT! <https://testflight.apple.com/join/T6qKfV6f>'',
      ''**Group E**: :tada: THERE IS A SLOT! <https://testflight.apple.com/join/sMm1MCYc>'']"
proof -
  have a0: "0 < length TESTFLIGHT_LINKS"
    and a1: "TESTFLIGHT_LINKS ! 0 = (''Group A'', ''https://testflight.apple.com/join/rACTLjPL'')"
    and b0: "1 < length TESTFLIGHT_LINKS"
    and b1: "TESTFLIGHT_LINKS ! 1 = (''Group B'', ''https://testflight.apple.com/join/ocj3yptn'')"
    by (simp_all add: TESTFLIGHT_LINKS_def)
  have a2: "sample_http (request_for ''https://testflight.apple.com/join/rACTLjPL'') =
      Body ''<html><body>This beta is full.</body></html>''"
    and b2: "sample_http (request_for ''https://testflight.apple.com/join/ocj3yptn'') =
      Body ''<html><body>Start Testing</body></html>''"
    by (simp_all add: sample_http_def request_for_def)
  have a3: "sublist FULL_TEXT ''<html><body>This beta is full.</body></html>''"
    and b3: "\<not> sublist FULL_TEXT ''<html><body>Start Testing</body></html>''"
    by (simp_all add: FULL_TEXT_def sublist_code)
  have states: "filter (\<lambda>link. link_state sample_http link = AVAILABLE) TESTFLIGHT_LINKS =
      [(''Group B'', ''https://testflight.apple.com/join/ocj3yptn''),
       (''Group D'', ''https://testflight.apple.com/join/T6qKfV6f''),
       (''Group E'', ''https://testflight.apple.com/join/sMm1MCYc'')]"
    by (simp add: TESTFLIGHT_LINKS_def sample_http_def request_for_def FULL_TEXT_def sublist_code)
  have details: "map (link_detail sample_http)
      [(''Group B'', ''https://testflight.apple.com/join/ocj3yptn''),
       (''Group D'', ''https://testflight.apple.com/join/T6qKfV6f''),
       (''Group E'', ''https://testflight.apple.com/join/sMm1MCYc'')] =
     [''**Group B**: :tada: THERE IS A SLOT! <https://testflight.apple.com/join/ocj3yptn>'',
      ''**Group D**: :tada: THERE IS A SLOT! <https://testflight.apple.com/join/T6qKfV6f>'',
      ''**Group E**: :tada: THERE IS A SLOT! <https://testflight.apple.com/join/sMm1MCYc>'']"
    by (simp add: sample_http_def request_for_def FULL_TEXT_def sublist_code slot_message_def)
  note A = marker_decides_line [where get = sample_http and r = no_report, OF a0 a1 a2]
  note B = marker_decides_line [where get = sample_http and r = no_report, OF b0 b1 b2]
  have stepA: "check_link sample_http (''Group A'', ''https://testflight.apple.com/join/rACTLjPL'') no_report =
     \<lparr>requests_sent = [request_for ''https://testflight.apple.com/join/rACTLjPL''],
      all_status_messages = [''**Group A**: Full.''],
      slot_available_links = []\<rparr>"
  proof -
    from A a3 have "check_link sample_http (''Group A'', ''https://testflight.apple.com/join/rACTLjPL'') no_report =
        no_report\<lparr>requests_sent := requests_sent no_report @
            [request_for ''https://testflight.apple.com/join/rACTLjPL''],
          all_status_messages := all_status_messages no_report @ [''**'' @ ''Group A'' @ ''**: Full.'']\<rparr>"
      by blast
    then show ?thesis
      by (simp add: no_report_def del: check_link.simps)
  qed
  have stepB: "check_link sample_http (''Group B'', ''https://testflight.apple.com/join/ocj3yptn'') no_report =
     \<lparr>requests_sent = [request_for ''https://testflight.apple.com/join/ocj3yptn''],
      all_status_messages =
        [''**Group B**: :tada: THERE IS A SLOT! <https://testflight.apple.com/join/ocj3yptn>''],
      slot_available_links =
        [''**Group B**: :tada: THERE IS A SLOT! <https://testflight.apple.com/join/ocj3yptn>'']\<rparr>"
  proof -
    from B b3 have "check_link sample_http (''Group B'', ''https://testflight.apple.com/join/ocj3yptn'') no_report =
        no_report\<lparr>requests_sent := requests_sent no_report @
            [request_for ''https://testflight.apple.com/join/ocj3yptn''],
          slot_available_links := slot_available_links no_report @
            [''**'' @ ''Group B'' @ ''**: :tada: THERE IS A SLOT! <'' @
             ''https://testflight.apple.com/join/ocj3yptn'' @ ''>''],
          all_status_messages := all_status_messages no_report @
            [''**'' @ ''Group B'' @ ''**: :tada: THERE IS A SLOT! <'' @
             ''https://testflight.apple.com/join/ocj3yptn'' @ ''>'']\<rparr>"
      by blast
    then show ?thesis
      by (simp add: no_report_def del: check_link.simps)
  qed
  have lineA: "all_status_messages (check_links sample_http TESTFLIGHT_LINKS no_report) ! 0 = ''**Group A**: Full.''"
    and stA: "link_state sample_http (TESTFLIGHT_LINKS ! 0) = FULL"
  proof -
    from A a3 have "all_status_messages (check_links sample_http TESTFLIGHT_LINKS no_report) ! 0 =
        ''**'' @ ''Group A'' @ ''**: Full.''"
      by blast
    then show "all_status_messages (check_links sample_http TESTFLIGHT_LINKS no_report) ! 0 = ''**Group A**: Full.''"
      by simp
    from A a3 show "link_state sample_http (TESTFLIGHT_LINKS ! 0) = FULL"
      by blast
  qed
  have lineB: "all_status_messages (check_links sample_http TESTFLIGHT_LINKS no_report) ! 1 =
     ''**Group B**: :tada: THERE IS A SLOT! <https://testflight.apple.com/join/ocj3yptn>''"
    and stB: "link_state sample_http (TESTFLIGHT_LINKS ! 1) = AVAILABLE"
  proof -
    from B b3 have "all_status_messages (check_links sample_http TESTFLIGHT_LINKS no_report) ! 1 =
        ''**'' @ ''Group B'' @ ''**: :tada: THERE IS A SLOT! <'' @
        ''https://testflight.apple.com/join/ocj3yptn'' @ ''>''"
      by blast
    then show "all_status_messages (check_links sample_http TESTFLIGHT_LINKS no_report) ! 1 =
        ''**Group B**: :tada: THERE IS A SLOT! <https://testflight.apple.com/join/ocj3yptn>''"
      by simp
    from B b3 show "link_state sample_http (TESTFLIGHT_LINKS ! 1) = AVAILABLE"
      by blast
  qed
  have slots: "slot_available_links (check_links sample_http TESTFLIGHT_LINKS no_report) =
     [''**Group B**: :tada: THERE IS A SLOT! <https://testflight.apple.com/join/ocj3yptn>'',
      ''**Group D**: :tada: THERE IS A SLOT! <https://testflight.apple.com/join/T6qKfV6f>'',
      ''**Group E**: :tada: THERE IS A SLOT! <https://testflight.apple.com/join/sMm1MCYc>'']"
  proof -
    from A have "slot_available_links (check_links sample_http TESTFLIGHT_LINKS no_report) =
        map (link_detail sample_http)
          (filter (\<lambda>link. link_state sample_http link = AVAILABLE) TESTFLIGHT_LINKS)"
      by blast
    then show ?thesis by (simp only: states details)
  qed
  from a0 a1 a2 a3 b0 b1 b2 b3 stepA stepB lineA lineB stA stB slots show ?thesis
    by blast
qed

subsection \<open>C2: a failed fetch is one UNREACHABLE line\<close>

text \<open>
  C2, as stated, gives the detail of a failed fetch with the bare name. The source
  writes the name between \<^verbatim>\<open>**\<close> markers here too: when every request times out, the
  line for Group A is \<^verbatim>\<open>Could not check status for **Group A**. Error: Read timed out.\<close>
\<close>

theorem error_line_counterexample:
  "TESTFLIGHT_LINKS ! 0 = (''Group A'', ''https://testflight.apple.com/join/rACTLjPL'') \<and>
   timed_out (request_for ''https://testflight.apple.com/join/rACTLjPL'') =
     RequestException ''Read timed out.'' \<and>
   all_status_messages (check_links timed_out TESTFLIGHT_LINKS no_report) ! 0 =
     ''Could not check status for **Group A**. Error: Read timed out.'' \<and>
   all_status_messages (check_links timed_out TESTFLIGHT_LINKS no_report) ! 0 \<noteq>
     ''Could not check status for Group A. Error: Read timed out.''"
  by (simp add: TESTFLIGHT_LINKS_def timed_out_def no_report_def error_message_def)

text \<open>
  C2, amended: for every target of the registry whose fetch raises a request
  exception (a transport error or a non-success status), the loop body appends
  \<^verbatim>\<open>Could not check status for **<name>**. Error: <cause>\<close> to \<open>all_status_messages\<close>
  and leaves \<open>slot_available_links\<close> as it was (the target is UNREACHABLE, and is not
  counted as a slot); the exception ends there and the loop goes on with the targets
  that follow, from the report it has so far. The whole pass returns its report: one
  request per target of the registry, in registry order, one line per target, each
  target's own, and as slots the lines of the AVAILABLE targets only.
\<close>

theorem fetch_failure_line:
  assumes "i < length links" and "links ! i = (name, url)"
    and "get (request_for url) = RequestException e"
  shows "check_link get (name, url) r =
           r\<lparr>requests_sent := requests_sent r @ [request_for url],
             all_status_messages := all_status_messages r @
               [''Could not check status for **'' @ name @ ''**. Error: '' @ e]\<rparr> \<and>
         check_links get links no_report =
           check_links get (drop (Suc i) links)
             (check_link get (name, url) (check_links get (take i links) no_report)) \<and>
         link_state get (links ! i) = UNREACHABLE \<and>
         all_status_messages (check_links get links no_report) ! i =
           ''Could not check status for **'' @ name @ ''**. Error: '' @ e \<and>
         ''Could not check status for **'' @ name @ ''**. Error: '' @ e
           \<notin> set (slot_available_links (check_links get links no_report)) \<and>
         slot_available_links (check_links get links no_report) =
           map (link_detail get) (filter (\<lambda>link. link_state get link = AVAILABLE) links) \<and>
         requests_sent (check_links get links no_report) = map (request_for \<circ> snd) links \<and>
         all_status_messages (check_links get links no_report) = map (link_detail get) links"
proof -
  let ?r = "check_links get links no_report"
  have step: "check_link get (name, url) r =
      r\<lparr>requests_sent := requests_sent r @ [request_for url],
        all_status_messages := all_status_messages r @ [error_message name e]\<rparr>"
    using assms(3) by simp
  have split: "?r = check_links get (drop (Suc i) links)
      (check_link get (name, url) (check_links get (take i links) no_report))"
    using check_links_split [OF assms(1), of get no_report] assms(2) by simp
  have st: "link_state get (links ! i) = UNREACHABLE"
    using assms(2,3) by simp
  have line: "all_status_messages ?r ! i = error_message name e"
    using assms by (simp add: report_all)
  have out: "error_message name e \<notin> set (slot_available_links ?r)"
    by (simp only: report_slots error_not_in_slots not_False_eq_True)
  from step split st line out report_slots_states [of get links] report_requests [of get links]
    report_all [of get links]
  show ?thesis
    unfolding error_message_def by blast
qed

theorem fetch_failure_line_witness:
  "2 < length TESTFLIGHT_LINKS \<and>
   TESTFLIGHT_LINKS ! 2 = (''Group C'', ''https://testflight.apple.com/join/CuMxZE2M'') \<and>
   sample_http (request_for ''https://testflight.apple.com/join/CuMxZE2M'') =
     RequestException ''404 Client Error: Not Found'' \<and>
   check_link sample_http (''Group C'', ''https://testflight.apple.com/join/CuMxZE2M'') no_report =
     \<lparr>requests_sent = [request_for ''https://testflight.apple.com/join/CuMxZE2M''],
      all_status_messages =
        [''Could not check status for **Group C**. Error: 404 Client Error: Not Found''],
      slot_available_links = []\<rparr> \<and>
   link_state sample_http (TESTFLIGHT_LINKS ! 2) = UNREACHABLE \<and>
   all_status_messages (check_links sample_http TESTFLIGHT_LINKS no_report) =
     [''**Group A**: Full.'',
      ''**Group B**: :tada: THERE IS A SLOT! <https://testflight.apple.com/join/ocj3yptn>'',
      ''Could not check status for **Group C**. Error: 404 Client Error: Not Found'',
      ''**Group D**: :tada: THERE IS A SLOT! <https://testflight.apple.com/join/T6qKfV6f>'',
      ''**Group E**: :tada: THERE IS A SLOT! <https://testflight.apple.com/join/sMm1MCYc>''] \<and>
   slot_available_links (check_links sample_http TESTFLIGHT_LINKS no_report) =
     [''**Group B**: :tada: THERE IS A SLOT! <https://testflight.apple.com/join/ocj3yptn>'',
      ''**Group D**: :tada: THERE IS A SLOT! <https://testflight.apple.com/join/T6qKfV6f>'',
      ''**Group E**: :tada: THERE IS A SLOT! <https://testflight.apple.com/join/sMm1MCYc>''] \<and>
   map call_url (requests_sent (check_links sample_http TESTFLIGHT_LINKS no_report)) =
     [''https://testflight.apple.com/join/rACTLjPL'', ''https://testflight.apple.com/join/ocj3yptn'',
      ''https://testflight.apple.com/join/CuMxZE2M'', ''https://testflight.apple.com/join/T6qKfV6f'',
      ''https://testflight.apple.com/join/sMm1MCYc'']"
proof -
  have c0: "2 < length TESTFLIGHT_LINKS"
    and c1: "TESTFLIGHT_LINKS ! 2 = (''Group C'', ''https://testflight.apple.com/join/CuMxZE2M'')"
    by (simp_all add: TESTFLIGHT_LINKS_def)
  have c2: "sample_http (request_for ''https://testflight.apple.com/join/CuMxZE2M'') =
      RequestException ''404 Client Error: Not Found''"
    by (simp add: sample_http_def request_for_def)
  have details: "map (link_detail sample_http) TESTFLIGHT_LINKS =
     [''**Group A**: Full.'',
      ''**Group B**: :tada: THERE IS A SLOT! <https://testflight.apple.com/join/ocj3yptn>'',
      ''Could not check status for **Group C**. Error: 404 Client Error: Not Found'',
      ''**Group D**: :tada: THERE IS A SLOT! <https://testflight.apple.com/join/T6qKfV6f>'',
      ''**Group E**: :tada: THERE IS A SLOT! <https://testflight.apple.com/join/sMm1MCYc>'']"
    by (simp add: TESTFLIGHT_LINKS_def sample_http_def request_for_def FULL_TEXT_def sublist_code
        full_message_def slot_message_def error_message_def)
  have states: "filter (\<lambda>link. link_state sample_http link = AVAILABLE) TESTFLIGHT_LINKS =
      [(''Group B'', ''https://testflight.apple.com/join/ocj3yptn''),
       (''Group D'', ''https://testflight.apple.com/join/T6qKfV6f''),
       (''Group E'', ''https://testflight.apple.com/join/sMm1MCYc'')]"
    by (simp add: TESTFLIGHT_LINKS_def sample_http_def request_for_def FULL_TEXT_def sublist_code)
  have avail: "map (link_detail sample_http)
      [(''Group B'', ''https://testflight.apple.com/join/ocj3yptn''),
       (''Group D'', ''https://testflight.apple.com/join/T6qKfV6f''),
       (''Group E'', ''https://testflight.apple.com/join/sMm1MCYc'')] =
     [''**Group B**: :tada: THERE IS A SLOT! <https://testflight.apple.com/join/ocj3yptn>'',
      ''**Group D**: :tada: THERE IS A SLOT! <https://testflight.apple.com/join/T6qKfV6f>'',
      ''**Group E**: :tada: THERE IS A SLOT! <https://testflight.apple.com/join/sMm1MCYc>'']"
    by (simp add: sample_http_def request_for_def FULL_TEXT_def sublist_code slot_message_def)
  have urls: "map call_url (map (request_for \<circ> snd) TESTFLIGHT_LINKS) =
     [''https://testflight.apple.com/join/rACTLjPL'', ''https://testflight.apple.com/join/ocj3yptn'',
      ''https://testflight.apple.com/join/CuMxZE2M'', ''https://testflight.apple.com/join/T6qKfV6f'',
      ''https://testflight.apple.com/join/sMm1MCYc'']"
    by (simp add: TESTFLIGHT_LINKS_def request_for_def)
  note C = fetch_failure_line [where get = sample_http and r = no_report, OF c0 c1 c2]
  have step: "check_link sample_http (''Group C'', ''https://testflight.apple.com/join/CuMxZE2M'') no_report =
     \<lparr>requests_sent = [request_for ''https://testflight.apple.com/join/CuMxZE2M''],
      all_status_messages =
        [''Could not check status for **Group C**. Error: 404 Client Error: Not Found''],
      slot_available_links = []\<rparr>"
  proof -
    from C have "check_link sample_http (''Group C'', ''https://testflight.apple.com/join/CuMxZE2M'') no_report =
        no_report\<lparr>requests_sent := requests_sent no_report @
            [request_for ''https://testflight.apple.com/join/CuMxZE2M''],
          all_status_messages := all_status_messages no_report @
            [''Could not check status for **'' @ ''Group C'' @ ''**. Error: '' @
             ''404 Client Error: Not Found'']\<rparr>"
      by blast
    then show ?thesis
      by (simp add: no_report_def del: check_link.simps)
  qed
  have st: "link_state sample_http (TESTFLIGHT_LINKS ! 2) = UNREACHABLE"
    using C by blast
  have lines: "all_status_messages (check_links sample_http TESTFLIGHT_LINKS no_report) =
     [''**Group A**: Full.'',
      ''**Group B**: :tada: THERE IS A SLOT! <https://testflight.apple.com/join/ocj3yptn>'',
      ''Could not check status for **Group C**. Error: 404 Client Error: Not Found'',
      ''**Group D**: :tada: THERE IS A SLOT! <https://testflight.apple.com/join/T6qKfV6f>'',
      ''**Group E**: :tada: THERE IS A SLOT! <https://testflight.apple.com/join/sMm1MCYc>'']"
  proof -
    from C have "all_status_messages (check_links sample_http TESTFLIGHT_LINKS no_report) =
        map (link_detail sample_http) TESTFLIGHT_LINKS"
      by blast
    then show ?thesis by (simp only: details)
  qed
  have slots: "slot_available_links (check_links sample_http TESTFLIGHT_LINKS no_report) =
     [''**Group B**: :tada: THERE IS A SLOT! <https://testflight.apple.com/join/ocj3yptn>'',
      ''**Group D**: :tada: THERE IS A SLOT! <https://testflight.apple.com/join/T6qKfV6f>'',
      ''**Group E**: :tada: THERE IS A SLOT! <https://testflight.apple.com/join/sMm1MCYc>'']"
  proof -
    from C have "slot_available_links (check_links sample_http TESTFLIGHT_LINKS no_report) =
        map (link_detail sample_http)
          (filter (\<lambda>link. link_state sample_http link = AVAILABLE) TESTFLIGHT_LINKS)"
      by blast
    then show ?thesis by (simp only: states avail)
  qed
  have reqs: "map call_url (requests_sent (check_links sample_http TESTFLIGHT_LINKS no_report)) =
     [''https://testflight.apple.com/join/rACTLjPL'', ''https://testflight.apple.com/join/ocj3yptn'',
      ''https://testflight.apple.com/join/CuMxZE2M'', ''https://testflight.apple.com/join/T6qKfV6f'',
      ''https://testflight.apple.com/join/sMm1MCYc'']"
  proof -
    from C have "requests_sent (check_links sample_http TESTFLIGHT_LINKS no_report) =
        map (request_for \<circ> snd) TESTFLIGHT_LINKS"
      by blast
    then show ?thesis by (simp only: urls)
  qed
  from c0 c1 c2 step st lines slots reqs show ?thesis
    by blast
qed

subsection \<open>C3: subscribers outside test mode hear of slots only\<close>

text \<open>
  C3: take a pass over a snapshot of the subscribed users and a subscriber who is not
  in test mode. \<open>slot_available_links\<close> holds exactly the lines of the AVAILABLE
  targets, in registry order, and no line of a FULL or UNREACHABLE target. If no
  target is AVAILABLE, nothing is sent to the subscriber. If some target is AVAILABLE,
  the one text ever sent to the subscriber is the slot header followed by those lines,
  joined by newlines; it is sent once when the lookup of the user returns the user,
  and it is received when the send succeeds.
\<close>

theorem normal_subscriber_messages:
  assumes "is_snapshot snapshot st"
    and "user_id \<in> subscribed_users st"
    and "user_id \<notin> test_mode_users st"
  shows "let r = check_links get links no_report;
             log = snd (check_links_and_notify links get d snapshot st);
             text = ''--- :tada: Slot Available! ---\<newline>'' @ join ''\<newline>'' (slot_available_links r)
         in slot_available_links r = map (link_detail get) (filter (is_available get) links) \<and>
            (\<forall>link \<in> set links. link_state get link \<noteq> AVAILABLE \<longrightarrow>
               link_detail get link \<notin> set (slot_available_links r)) \<and>
            ((\<forall>link \<in> set links. link_state get link \<noteq> AVAILABLE) \<longrightarrow>
               sent_to user_id log = [] \<and> received_by user_id log = []) \<and>
            ((\<exists>link \<in> set links. link_state get link = AVAILABLE) \<longrightarrow>
               (fetch_user d user_id = User_Found \<longrightarrow> sent_to user_id log = [text]) \<and>
               (fetch_user d user_id = User_Found \<and> send d user_id text = Delivered \<longrightarrow>
                  received_by user_id log = [text]) \<and>
               set (sent_to user_id log) \<subseteq> {text} \<and> length (sent_to user_id log) \<le> 1)"
proof -
  let ?r = "check_links get links no_report"
  let ?log = "snd (check_links_and_notify links get d snapshot st)"
  let ?text = "slot_notification (slot_available_links ?r)"
  have slots: "slot_available_links ?r = map (link_detail get) (filter (is_available get) links)"
    by (rule report_slots)
  have others: "\<forall>link \<in> set links. link_state get link \<noteq> AVAILABLE \<longrightarrow>
      link_detail get link \<notin> set (slot_available_links ?r)"
    unfolding slots using other_not_in_slots [of get _ links] by (simp add: is_available_def)
  have found: "(slot_available_links ?r \<noteq> []) = (\<exists>link \<in> set links. link_state get link = AVAILABLE)"
    by (simp add: slot_found_iff is_available_def)
  have none: "(\<forall>link \<in> set links. link_state get link \<noteq> AVAILABLE) \<longrightarrow>
      sent_to user_id ?log = [] \<and> received_by user_id ?log = []"
    unfolding cycle_sent_to [OF assms(1,2)] cycle_received_by [OF assms(1,2)]
    using found assms(3) by (auto simp: due_def sent_to_def received_by_def)
  have some: "(\<exists>link \<in> set links. link_state get link = AVAILABLE) \<longrightarrow>
      (fetch_user d user_id = User_Found \<longrightarrow> sent_to user_id ?log = [?text]) \<and>
      (fetch_user d user_id = User_Found \<and> send d user_id ?text = Delivered \<longrightarrow>
         received_by user_id ?log = [?text]) \<and>
      set (sent_to user_id ?log) \<subseteq> {?text} \<and> length (sent_to user_id ?log) \<le> 1"
    unfolding cycle_sent_to [OF assms(1,2)] cycle_received_by [OF assms(1,2)]
    using found assms(3) by (auto simp: due_def sent_to_def received_by_def)
  show ?thesis
    unfolding Let_def using slots others none some by (simp only: slot_notification_def)
qed

theorem normal_subscriber_messages_witness:
  "is_snapshot [3, 1, 2] sample_store \<and> 2 \<in> subscribed_users sample_store \<and>
   2 \<notin> test_mode_users sample_store \<and>
   slot_available_links (check_links beta_full TESTFLIGHT_LINKS no_report) = [] \<and>
   sent_to 2 (snd (check_links_and_notify TESTFLIGHT_LINKS beta_full sample_discord [3, 1, 2] sample_store)) = [] \<and>
   link_state sample_http (TESTFLIGHT_LINKS ! 1) = AVAILABLE \<and>
   fetch_user sample_discord 2 = User_Found \<and>
   received_by 2 (snd (check_links_and_notify TESTFLIGHT_LINKS sample_http sample_discord [3, 1, 2] sample_store)) =
     [''--- :tada: Slot Available! ---\<newline>'' @
      ''**Group B**: :tada: THERE IS A SLOT! <https://testflight.apple.com/join/ocj3yptn>\<newline>'' @
      ''**Group D**: :tada: THERE IS A SLOT! <https://testflight.apple.com/join/T6qKfV6f>\<newline>'' @
      ''**Group E**: :tada: THERE IS A SLOT! <https://testflight.apple.com/join/sMm1MCYc>'']"
proof -
  have h1: "is_snapshot [3, 1, 2] sample_store"
    and h2: "2 \<in> subscribed_users sample_store"
    and h3: "2 \<notin> test_mode_users sample_store"
    by (auto simp: is_snapshot_def sample_store_def)
  have b: "link_state sample_http (TESTFLIGHT_LINKS ! 1) = AVAILABLE"
    by (simp add: TESTFLIGHT_LINKS_def sample_http_def request_for_def FULL_TEXT_def sublist_code)
  have f: "fetch_user sample_discord 2 = User_Found"
    and s: "\<And>text. send sample_discord 2 text = Delivered"
    by (simp_all add: sample_discord_def)
  show ?thesis
    using normal_subscriber_messages [OF h1 h2 h3, where get = beta_full
        and links = TESTFLIGHT_LINKS and d = sample_discord]
      normal_subscriber_messages [OF h1 h2 h3, where get = sample_http
        and links = TESTFLIGHT_LINKS and d = sample_discord]
      h1 h2 h3 b f s beta_full_states sample_states
    by (simp add: Let_def sample_slots beta_full_slots)
qed

subsection \<open>C4: subscribers in test mode get the whole digest\<close>

text \<open>
  C4: take a pass over a snapshot of the subscribed users and a subscriber who is in
  test mode (the pass is then not skipped, the subscribed set being non-empty).
  Whether or not a target is AVAILABLE, the one text ever sent to the subscriber is
  the status header followed by every line of \<open>all_status_messages\<close>, one per target,
  joined by newlines; it is sent exactly once when the lookup of the user returns the
  user, and it is received when the send succeeds.
\<close>

theorem verbose_subscriber_message:
  assumes "is_snapshot snapshot st"
    and "user_id \<in> subscribed_users st"
    and "user_id \<in> test_mode_users st"
  shows "let r = check_links get links no_report;
             log = snd (check_links_and_notify links get d snapshot st);
             text = ''--- Test Mode Status Update ---\<newline>'' @ join ''\<newline>'' (all_status_messages r)
         in all_status_messages r = map (link_detail get) links \<and>
            (fetch_user d user_id = User_Found \<longrightarrow> sent_to user_id log = [text]) \<and>
            (fetch_user d user_id = User_Found \<and> send d user_id text = Delivered \<longrightarrow>
               received_by user_id log = [text]) \<and>
            set (sent_to user_id log) \<subseteq> {text} \<and> length (sent_to user_id log) \<le> 1"
proof -
  let ?r = "check_links get links no_report"
  let ?log = "snd (check_links_and_notify links get d snapshot st)"
  let ?text = "full_update (all_status_messages ?r)"
  have lines: "all_status_messages ?r = map (link_detail get) links"
    by (rule report_all)
  have sent: "(fetch_user d user_id = User_Found \<longrightarrow> sent_to user_id ?log = [?text]) \<and>
      set (sent_to user_id ?log) \<subseteq> {?text} \<and> length (sent_to user_id ?log) \<le> 1"
    unfolding cycle_sent_to [OF assms(1,2)]
    using assms(3) by (auto simp: due_def sent_to_def)
  have got: "fetch_user d user_id = User_Found \<and> send d user_id ?text = Delivered \<longrightarrow>
      received_by user_id ?log = [?text]"
    unfolding cycle_received_by [OF assms(1,2)]
    using assms(3) by (auto simp: due_def received_by_def)
  show ?thesis
    unfolding Let_def using lines sent got by (simp add: full_update_def)
qed

theorem verbose_subscriber_message_witness:
  "is_snapshot [3, 1, 2] sample_store \<and> 1 \<in> subscribed_users sample_store \<and>
   1 \<in> test_mode_users sample_store \<and> fetch_user sample_discord 1 = User_Found \<and>
   received_by 1 (snd (check_links_and_notify TESTFLIGHT_LINKS sample_http sample_discord [3, 1, 2] sample_store)) =
     [''--- Test Mode Status Update ---\<newline>'' @
      ''**Group A**: Full.\<newline>'' @
      ''**Group B**: :tada: THERE IS A SLOT! <https://testflight.apple.com/join/ocj3yptn>\<newline>'' @
      ''Could not check status for **Group C**. Error: 404 Client Error: Not Found\<newline>'' @
      ''**Group D**: :tada: THERE IS A SLOT! <https://testflight.apple.com/join/T6qKfV6f>\<newline>'' @
      ''**Group E**: :tada: THERE IS A SLOT! <https://testflight.apple.com/join/sMm1MCYc>'']"
proof -
  have h1: "is_snapshot [3, 1, 2] sample_store"
    and h2: "1 \<in> subscribed_users sample_store"
    and h3: "1 \<in> test_mode_users sample_store"
    by (auto simp: is_snapshot_def sample_store_def)
  have f: "fetch_user sample_discord 1 = User_Found"
    and s: "\<And>text. send sample_discord 1 text = Delivered"
    by (simp_all add: sample_discord_def)
  show ?thesis
    using verbose_subscriber_message [OF h1 h2 h3, where get = sample_http
        and links = TESTFLIGHT_LINKS and d = sample_discord] h1 h2 h3 f s
    by (simp add: Let_def sample_lines)
qed

subsection \<open>C5: a refused direct message removes the subscriber and no one else\<close>

text \<open>
  C5: if, during a pass over a snapshot of the subscribed users, a send to \<open>x\<close> ends
  with \<^verbatim>\<open>Forbidden\<close>, then after the pass \<open>x\<close> is in neither set; the pass still
  returns its result (the exception is handled inside the loop body); and every other
  subscriber whose lookup returns the user is sent what the tier asks for: the digest
  in test mode, the slot notification outside test mode when a slot was found, and
  nothing otherwise.
\<close>

theorem forbidden_removes_subscriber:
  assumes "is_snapshot snapshot st"
    and "(x, text, Forbidden) \<in> set (snd (check_links_and_notify links get d snapshot st))"
  shows "let r = check_links get links no_report;
             out = check_links_and_notify links get d snapshot st
         in x \<notin> subscribed_users (fst out) \<and> x \<notin> test_mode_users (fst out) \<and>
            (\<forall>y \<in> subscribed_users st. y \<noteq> x \<and> fetch_user d y = User_Found \<longrightarrow>
               sent_to y (snd out) =
                 (if y \<in> test_mode_users st then [full_update (all_status_messages r)]
                  else if slot_available_links r \<noteq> [] then [slot_notification (slot_available_links r)]
                  else []))"
proof -
  let ?r = "check_links get links no_report"
  let ?out = "check_links_and_notify links get d snapshot st"
  let ?fm = "full_update (all_status_messages ?r)"
  let ?sf = "slot_available_links ?r \<noteq> []"
  let ?sl = "slot_available_links ?r"
  have ne: "subscribed_users st \<noteq> {}"
  proof
    assume "subscribed_users st = {}"
    then have "snd ?out = []" by (simp add: check_links_and_notify_def)
    with assms(2) show False by simp
  qed
  from assms(2) obtain v where v: "v \<in> set snapshot"
    and e: "(x, text, Forbidden) \<in> set (due d ?fm ?sf ?sl (test_mode_users st) v)"
    unfolding cycle_log [OF assms(1) ne] by auto
  from due_entry [OF e] have "v = x" by simp
  with v e have x: "x \<in> set snapshot"
    and e': "(x, text, Forbidden) \<in> set (due d ?fm ?sf ?sl (test_mode_users st) x)"
    by simp_all
  have "refused d ?fm ?sf ?sl (test_mode_users st) x"
    unfolding refused_def using e' by force
  with x have gone: "x \<notin> subscribed_users (fst ?out) \<and> x \<notin> test_mode_users (fst ?out)"
    by (simp add: cycle_store [OF assms(1) ne])
  have others: "\<forall>y \<in> subscribed_users st. y \<noteq> x \<and> fetch_user d y = User_Found \<longrightarrow>
      sent_to y (snd ?out) =
        (if y \<in> test_mode_users st then [?fm]
         else if ?sl \<noteq> [] then [slot_notification ?sl] else [])"
  proof (intro ballI impI)
    fix y assume y: "y \<in> subscribed_users st" and "y \<noteq> x \<and> fetch_user d y = User_Found"
    then show "sent_to y (snd ?out) =
        (if y \<in> test_mode_users st then [?fm]
         else if ?sl \<noteq> [] then [slot_notification ?sl] else [])"
      unfolding cycle_sent_to [OF assms(1) y] by (simp add: due_def sent_to_def)
  qed
  show ?thesis
    unfolding Let_def using gone others by simp
qed

theorem forbidden_removes_subscriber_witness:
  "is_snapshot [3, 1, 2] sample_store \<and>
   (3, slot_notification (slot_available_links (check_links sample_http TESTFLIGHT_LINKS no_report)), Forbidden)
     \<in> set (snd (check_links_and_notify TESTFLIGHT_LINKS sample_http sample_discord [3, 1, 2] sample_store)) \<and>
   3 \<notin> subscribed_users (fst (check_links_and_notify TESTFLIGHT_LINKS sample_http sample_discord [3, 1, 2] sample_store)) \<and>
   3 \<notin> test_mode_users (fst (check_links_and_notify TESTFLIGHT_LINKS sample_http sample_discord [3, 1, 2] sample_store)) \<and>
   1 \<in> subscribed_users sample_store \<and> fetch_user sample_discord 1 = User_Found \<and>
   sent_to 1 (snd (check_links_and_notify TESTFLIGHT_LINKS sample_http sample_discord [3, 1, 2] sample_store)) =
     [full_update (all_status_messages (check_links sample_http TESTFLIGHT_LINKS no_report))] \<and>
   2 \<in> subscribed_users sample_store \<and> fetch_user sample_discord 2 = User_Found \<and>
   sent_to 2 (snd (check_links_and_notify TESTFLIGHT_LINKS sample_http sample_discord [3, 1, 2] sample_store)) =
     [slot_notification (slot_available_links (check_links sample_http TESTFLIGHT_LINKS no_report))]"
proof -
  have h1: "is_snapshot [3, 1, 2] sample_store"
    by (auto simp: is_snapshot_def sample_store_def)
  have h2: "(3, slot_notification (slot_available_links (check_links sample_http TESTFLIGHT_LINKS no_report)), Forbidden)
     \<in> set (snd (check_links_and_notify TESTFLIGHT_LINKS sample_http sample_discord [3, 1, 2] sample_store))"
    by (simp add: check_links_and_notify_def Let_def sample_slots sample_lines sample_store_def
        sample_discord_def notify_user_def user_send_def discard_user_def)
  have m: "1 \<in> subscribed_users sample_store" "2 \<in> subscribed_users sample_store"
    "1 \<in> test_mode_users sample_store" "2 \<notin> test_mode_users sample_store"
    by (simp_all add: sample_store_def)
  have f: "fetch_user sample_discord 1 = User_Found" "fetch_user sample_discord 2 = User_Found"
    by (simp_all add: sample_discord_def)
  show ?thesis
    using forbidden_removes_subscriber [OF h1 h2] h1 h2 m f
    by (simp add: Let_def sample_slots)
qed

subsection \<open>C6: test mode users are subscribed users\<close>

text \<open>
  C6: if every test mode user is a subscribed user, this is still so after
  \<^verbatim>\<open>notify\<close>, after \<^verbatim>\<open>stop\<close>, after \<^verbatim>\<open>test-mode\<close>, after the removal of a
  user by the dispatcher, and after a whole pass of the loop with the removals it
  makes.
\<close>

theorem verbose_subset_preserved:
  assumes "verbose_subset st"
  shows "verbose_subset (fst (notify c st)) \<and>
         verbose_subset (fst (stop c st)) \<and>
         verbose_subset (fst (test_mode c st)) \<and>
         verbose_subset (discard_user user_id st) \<and>
         verbose_subset (fst (check_links_and_notify links get d snapshot st))"
proof -
  have "verbose_subset (fst (notify c st))"
    using assms by (auto simp: notify_def verbose_subset_def)
  moreover have "verbose_subset (fst (stop c st))"
    using assms by (simp add: stop_def discard_user_subset)
  moreover have "verbose_subset (fst (test_mode c st))"
    using assms by (auto simp: test_mode_def verbose_subset_def)
  moreover have "verbose_subset (discard_user user_id st)"
    using assms by (rule discard_user_subset)
  moreover have "verbose_subset (fst (check_links_and_notify links get d snapshot st))"
    using assms by (simp add: check_links_and_notify_def Let_def notify_users_subset)
  ultimately show ?thesis by simp
qed

theorem verbose_subset_preserved_witness:
  "verbose_subset sample_store \<and>
   fst (notify (dm 4) sample_store) = \<lparr>subscribed_users = {1, 2, 3, 4}, test_mode_users = {1}\<rparr> \<and>
   verbose_subset (fst (notify (dm 4) sample_store)) \<and>
   fst (stop (dm 1) sample_store) = \<lparr>subscribed_users = {2, 3}, test_mode_users = {}\<rparr> \<and>
   verbose_subset (fst (stop (dm 1) sample_store)) \<and>
   fst (test_mode (dm 2) sample_store) = \<lparr>subscribed_users = {1, 2, 3}, test_mode_users = {1, 2}\<rparr> \<and>
   verbose_subset (fst (test_mode (dm 2) sample_store)) \<and>
   fst (check_links_and_notify TESTFLIGHT_LINKS sample_http sample_discord [3, 1, 2] sample_store) =
     \<lparr>subscribed_users = {1, 2}, test_mode_users = {1}\<rparr> \<and>
   verbose_subset (fst (check_links_and_notify TESTFLIGHT_LINKS sample_http sample_discord [3, 1, 2] sample_store))"
proof -
  have h: "verbose_subset sample_store"
    by (simp add: verbose_subset_def sample_store_def)
  have n: "fst (notify (dm 4) sample_store) = \<lparr>subscribed_users = {1, 2, 3, 4}, test_mode_users = {1}\<rparr>"
    by (auto simp: notify_def dm_def sample_store_def)
  have s: "fst (stop (dm 1) sample_store) = \<lparr>subscribed_users = {2, 3}, test_mode_users = {}\<rparr>"
    by (auto simp: stop_def dm_def sample_store_def discard_user_def)
  have t: "fst (test_mode (dm 2) sample_store) = \<lparr>subscribed_users = {1, 2, 3}, test_mode_users = {1, 2}\<rparr>"
    by (auto simp: test_mode_def dm_def sample_store_def)
  show ?thesis
    using verbose_subset_preserved [OF h, of "dm 4" 3 TESTFLIGHT_LINKS sample_http sample_discord "[3, 1, 2]"]
      verbose_subset_preserved [OF h, of "dm 1" 3 TESTFLIGHT_LINKS sample_http sample_discord "[3, 1, 2]"]
      verbose_subset_preserved [OF h, of "dm 2" 3 TESTFLIGHT_LINKS sample_http sample_discord "[3, 1, 2]"]
      h n s t sample_cycle_store
    by simp
qed

subsection \<open>C7: test mode needs a subscription\<close>

text \<open>
  C7: \<^verbatim>\<open>test-mode\<close>, issued in a direct message by a user who is not subscribed,
  answers that the user needs to subscribe first and leaves both sets as they were.
\<close>

theorem test_mode_not_subscribed:
  assumes "channel c = DMChannel" and "author_id c \<notin> subscribed_users st"
  shows "test_mode c st = (st, [''You need to subscribe first! Type `testflight>notify` to begin.''])"
  using assms by (simp add: test_mode_def)

theorem test_mode_not_subscribed_witness:
  "channel (dm 4) = DMChannel \<and> author_id (dm 4) \<notin> subscribed_users sample_store \<and>
   test_mode (dm 4) sample_store =
     (sample_store, [''You need to subscribe first! Type `testflight>notify` to begin.''])"
proof -
  have h1: "channel (dm 4) = DMChannel" by (simp add: dm_def)
  have h2: "author_id (dm 4) \<notin> subscribed_users sample_store"
    by (simp add: dm_def sample_store_def)
  show ?thesis
    using test_mode_not_subscribed [OF h1 h2] h1 h2 by simp
qed

subsection \<open>C8: the fetches carry no timeout\<close>

text \<open>
  C8, as stated, has every fetch of the loop bounded by a timeout. The source calls
  \<^verbatim>\<open>requests.get(url, headers=headers)\<close> and passes no timeout: the first request of
  a pass over the registry is the one for Group A, with the User-Agent header and
  without a timeout.
\<close>

theorem unbounded_fetch_counterexample:
  "requests_sent (check_links timed_out TESTFLIGHT_LINKS no_report) ! 0 =
     \<lparr>call_url = ''https://testflight.apple.com/join/rACTLjPL'',
      call_headers =
        [(''User-Agent'',
          ''Mozilla/5.0 (Windows NT 10.0; Win64; x64) AppleWebKit/537.36 (KHTML, like Gecko) Chrome/58.0.3029.110 Safari/537.3'')],
      call_timeout = None\<rparr> \<and>
   call_timeout (requests_sent (check_links timed_out TESTFLIGHT_LINKS no_report) ! 0) = None"
  unfolding report_requests by (simp add: TESTFLIGHT_LINKS_def request_for_def)

text \<open>
  C8, amended: the loop sends one request per target of the registry, in registry
  order, to the target's URL; each request carries the fixed User-Agent header and no
  timeout.
\<close>

theorem fetches_without_timeout:
  "map call_url (requests_sent (check_links get links no_report)) = map snd links \<and>
   map call_timeout (requests_sent (check_links get links no_report)) =
     replicate (length links) None \<and>
   map call_headers (requests_sent (check_links get links no_report)) =
     replicate (length links)
       [(''User-Agent'',
         ''Mozilla/5.0 (Windows NT 10.0; Win64; x64) AppleWebKit/537.36 (KHTML, like Gecko) Chrome/58.0.3029.110 Safari/537.3'')]"
  by (simp add: report_requests request_for_def comp_def map_replicate_const)

subsection \<open>C9: commands outside a direct message\<close>

text \<open>
  C9, as stated, has each of the three commands answer with a guidance message when it
  is issued outside a direct message. \<^verbatim>\<open>test-mode\<close> and \<^verbatim>\<open>stop\<close> return there
  without sending anything.
\<close>

theorem silent_rejection_counterexample:
  "channel (in_guild 1) \<noteq> DMChannel \<and>
   test_mode (in_guild 1) sample_store = (sample_store, []) \<and>
   stop (in_guild 1) sample_store = (sample_store, [])"
  by (simp add: in_guild_def test_mode_def stop_def)

text \<open>
  C9, amended: issued outside a direct message, none of \<^verbatim>\<open>notify\<close>, \<^verbatim>\<open>stop\<close>
  and \<^verbatim>\<open>test-mode\<close> changes either set, and \<^verbatim>\<open>notify\<close> answers with the guidance
  message.
\<close>

theorem outside_private_context:
  assumes "channel c \<noteq> DMChannel"
  shows "notify c st = (st, [''This command only works in my DMs! Please message me directly.'']) \<and>
         fst (stop c st) = st \<and> fst (test_mode c st) = st"
  using assms by (simp add: notify_def stop_def test_mode_def)

theorem outside_private_context_witness:
  "channel (in_guild 4) \<noteq> DMChannel \<and>
   notify (in_guild 4) sample_store =
     (sample_store, [''This command only works in my DMs! Please message me directly.'']) \<and>
   fst (stop (in_guild 4) sample_store) = sample_store \<and>
   fst (test_mode (in_guild 4) sample_store) = sample_store"
proof -
  have h: "channel (in_guild 4) \<noteq> DMChannel" by (simp add: in_guild_def)
  show ?thesis
    using outside_private_context [OF h] h by simp
qed

subsection \<open>C10: toggling test mode twice\<close>

text \<open>
  C10: for a subscribed user, in a direct message, \<^verbatim>\<open>test-mode\<close> issued twice in
  succession gives back the store it started from; a single \<^verbatim>\<open>test-mode\<close> flips
  the user's membership of the test mode users and changes nothing else.
\<close>

theorem test_mode_twice:
  assumes "channel c = DMChannel" and "author_id c \<in> subscribed_users st"
  shows "fst (test_mode c (fst (test_mode c st))) = st \<and>
         (author_id c \<in> test_mode_users (fst (test_mode c st))) = (author_id c \<notin> test_mode_users st) \<and>
         test_mode_users (fst (test_mode c st)) - {author_id c} = test_mode_users st - {author_id c} \<and>
         subscribed_users (fst (test_mode c st)) = subscribed_users st"
  using assms by (auto simp: test_mode_def insert_absorb)

theorem test_mode_twice_witness:
  "channel (dm 2) = DMChannel \<and> author_id (dm 2) \<in> subscribed_users sample_store \<and>
   fst (test_mode (dm 2) sample_store) = \<lparr>subscribed_users = {1, 2, 3}, test_mode_users = {1, 2}\<rparr> \<and>
   fst (test_mode (dm 2) (fst (test_mode (dm 2) sample_store))) = sample_store"
proof -
  have h1: "channel (dm 2) = DMChannel" by (simp add: dm_def)
  have h2: "author_id (dm 2) \<in> subscribed_users sample_store"
    by (simp add: dm_def sample_store_def)
  have t: "fst (test_mode (dm 2) sample_store) = \<lparr>subscribed_users = {1, 2, 3}, test_mode_users = {1, 2}\<rparr>"
    by (auto simp: test_mode_def dm_def sample_store_def)
  show ?thesis
    using test_mode_twice [OF h1 h2] h1 h2 t by blast
qed

end
